theory Spec2Isabelle
  imports Complex_Main "HOL-Library.Char_ord" "HOL-Library.List_Lexorder"
begin

section \<open>Failures of the program\<close>

text \<open>
  The C++ program has no error type: a rejected card makes \<^verbatim>\<open>Card.cpp\<close> print a
  message and call \<^verbatim>\<open>exit(-1)\<close>, \<^verbatim>\<open>std::stoi\<close> throws exceptions that nothing
  catches, and some statements have undefined behaviour (signed overflow,
  \<^verbatim>\<open>pop_back\<close> on an empty vector). Each of these endings is a value here.
  \<^item> \<open>InvalidRank\<close>: \<^verbatim>\<open>errorCheckCardValue\<close> printed
    "Error: card value is not 2-10 or A, J, Q or K" and exited with code -1;
  \<^item> \<open>InvalidSuit\<close>: \<^verbatim>\<open>errorCheckCardSymbol\<close> printed its message and exited
    with code -1;
  \<^item> \<open>StoiInvalidArgument\<close>, \<open>StoiOutOfRange\<close>: the uncaught exceptions
    \<^verbatim>\<open>std::invalid_argument\<close> and \<^verbatim>\<open>std::out_of_range\<close> of \<^verbatim>\<open>std::stoi\<close>;
  \<^item> \<open>UndefinedBehaviour\<close>: the statement executed has no defined meaning in C++.
\<close>

datatype error =
    InvalidRank
  | InvalidSuit
  | StoiInvalidArgument
  | StoiOutOfRange
  | UndefinedBehaviour

section \<open>Strings of the standard library\<close>

text \<open>
  \<^verbatim>\<open>std::string\<close> compares lexicographically, byte by byte, which is the order of
  \<open>char list\<close> given by \<open>Char_ord\<close> and \<open>List_Lexorder\<close>.
\<close>

definition isdigit :: "char \<Rightarrow> bool" where
  "isdigit c \<longleftrightarrow> CHR ''0'' \<le> c \<and> c \<le> CHR ''9''"

definition isspace :: "char \<Rightarrow> bool" where
  "isspace c \<longleftrightarrow> c = CHR '' '' \<or> (CHR 0x09 \<le> c \<and> c \<le> CHR 0x0D)"

definition digitValue :: "char \<Rightarrow> int" where
  "digitValue c = int (of_char c) - 48"

text \<open>The decimal value of a string of digits, most significant digit first.\<close>

fun decimal :: "int \<Rightarrow> string \<Rightarrow> int" where
  "decimal acc [] = acc"
| "decimal acc (c # cs) = decimal (10 * acc + digitValue c) cs"

definition INT_MAX :: int where
  "INT_MAX = 2147483647"

definition INT_MIN :: int where
  "INT_MIN = - 2147483648"

text \<open>
  \<^verbatim>\<open>std::stoi(str)\<close> in base 10: leading white space is skipped, an optional sign is
  read, then the longest run of digits; what follows is ignored. No digit at all
  throws \<^verbatim>\<open>std::invalid_argument\<close>, a value that does not fit an \<^verbatim>\<open>int\<close> throws
  \<^verbatim>\<open>std::out_of_range\<close>.
\<close>

definition stoi :: "string \<Rightarrow> error + int" where
  "stoi str =
     (let t = dropWhile isspace str;
          negative = (t \<noteq> [] \<and> hd t = CHR ''-'');
          u = (if t \<noteq> [] \<and> (hd t = CHR ''-'' \<or> hd t = CHR ''+'') then tl t else t);
          ds = takeWhile isdigit u
      in if ds = [] then Inl StoiInvalidArgument
         else let n = (if negative then - decimal 0 ds else decimal 0 ds)
              in if n < INT_MIN \<or> INT_MAX < n then Inl StoiOutOfRange else Inr n)"

text \<open>\<^verbatim>\<open>std::to_string\<close> of a non-negative \<^verbatim>\<open>int\<close>: its decimal digits.\<close>

definition digitChar :: "nat \<Rightarrow> char" where
  "digitChar d = ''0123456789'' ! d"

fun to_string :: "nat \<Rightarrow> string" where
  "to_string n =
     (if n < 10 then [digitChar n]
      else to_string (n div 10) @ [digitChar (n mod 10)])"

declare to_string.simps [simp del]

section \<open>Card\<close>

record Card =
  faceValueString :: string
  symbolString :: string

text \<open>A card written with its two strings, whether or not a constructor makes it.\<close>

abbreviation card :: "string \<Rightarrow> string \<Rightarrow> Card" where
  "card v s \<equiv> \<lparr>faceValueString = v, symbolString = s\<rparr>"

text \<open>
  \<^verbatim>\<open>generateRandomCardValueString\<close> and \<^verbatim>\<open>generateRandomCardSymbolString\<close>; the
  argument is the value \<^verbatim>\<open>rand()\<close> returned, which is never negative.
\<close>

definition generateRandomCardValueString :: "nat \<Rightarrow> string" where
  "generateRandomCardValueString r =
     (let randomValue = r mod 13 + 1
      in if randomValue = 1 then ''A''
         else if randomValue = 11 then ''J''
         else if randomValue = 12 then ''Q''
         else if randomValue = 13 then ''K''
         else to_string randomValue)"

definition generateRandomCardSymbolString :: "nat \<Rightarrow> string" where
  "generateRandomCardSymbolString r =
     (let randomNumber = r mod 4
      in if randomNumber = 0 then ''hearts''
         else if randomNumber = 2 then ''diamonds''
         else if randomNumber = 3 then ''clubs''
         else ''spades'')"

text \<open>
  \<^verbatim>\<open>errorCheckCardValue\<close>. In C++ \<^verbatim>\<open>&&\<close> binds tighter than \<^verbatim>\<open>||\<close>, so the condition
  is \<^verbatim>\<open>s < "2" || (s > "9" && (s != "10" && ... && s != "A"))\<close>, on strings.
\<close>

definition errorCheckCardValue :: "string \<Rightarrow> error + unit" where
  "errorCheckCardValue faceValueStringToCheck =
     (if faceValueStringToCheck < ''2'' \<or>
         (faceValueStringToCheck > ''9'' \<and>
          (faceValueStringToCheck \<noteq> ''10'' \<and> faceValueStringToCheck \<noteq> ''J'' \<and>
           faceValueStringToCheck \<noteq> ''Q'' \<and> faceValueStringToCheck \<noteq> ''K'' \<and>
           faceValueStringToCheck \<noteq> ''A''))
      then Inl InvalidRank
      else Inr ())"

definition errorCheckCardSymbol :: "string \<Rightarrow> error + unit" where
  "errorCheckCardSymbol symbolString' =
     (if symbolString' \<noteq> ''hearts'' \<and> symbolString' \<noteq> ''diamonds'' \<and>
         symbolString' \<noteq> ''clubs'' \<and> symbolString' \<noteq> ''spades''
      then Inl InvalidSuit
      else Inr ())"

text \<open>The default constructor \<^verbatim>\<open>Card()\<close>, from two results of \<^verbatim>\<open>rand()\<close>.\<close>

definition randomCard :: "nat \<Rightarrow> nat \<Rightarrow> Card" where
  "randomCard r1 r2 =
     \<lparr>faceValueString = generateRandomCardValueString r1,
      symbolString = generateRandomCardSymbolString r2\<rparr>"

text \<open>The constructor \<^verbatim>\<open>Card(string, string)\<close>: the value is checked first.\<close>

definition newCard :: "string \<Rightarrow> string \<Rightarrow> error + Card" where
  "newCard faceValueString' symbolString' =
     (case errorCheckCardValue faceValueString' of
        Inl e \<Rightarrow> Inl e
      | Inr _ \<Rightarrow>
          (case errorCheckCardSymbol symbolString' of
             Inl e \<Rightarrow> Inl e
           | Inr _ \<Rightarrow>
               Inr \<lparr>faceValueString = faceValueString', symbolString = symbolString'\<rparr>))"

definition getGameValue :: "Card \<Rightarrow> error + int" where
  "getGameValue c =
     (if faceValueString c \<ge> ''2'' \<and> faceValueString c \<le> ''9'' then stoi (faceValueString c)
      else if faceValueString c = ''10'' \<or> faceValueString c = ''J'' \<or>
              faceValueString c = ''Q'' \<or> faceValueString c = ''K'' then Inr 10
      else if faceValueString c = ''A'' then Inr 11
      else Inr 0)"

definition isAce :: "Card \<Rightarrow> bool" where
  "isAce c = (if faceValueString c = ''A'' then True else False)"

section \<open>Hand\<close>

text \<open>A hand is the vector \<^verbatim>\<open>cardsInHand\<close>, in the order the cards were added.\<close>

type_synonym Hand = "Card list"

definition addCard :: "Hand \<Rightarrow> Card \<Rightarrow> Hand" where
  "addCard cardsInHand cardToAdd = cardsInHand @ [cardToAdd]"

text \<open>
  The random numbers are the results of the successive calls of \<^verbatim>\<open>rand()\<close>:
  \<open>rnd k\<close> is the result of call number \<open>k\<close>, and the number of calls made so far is
  passed along. \<^verbatim>\<open>Card()\<close> calls \<^verbatim>\<open>rand()\<close> twice, for the value and then for the
  symbol. An amount below 1 adds nothing.
\<close>

type_synonym rng = "nat \<Rightarrow> nat"

fun addRandomCards :: "rng \<Rightarrow> nat \<Rightarrow> Hand \<times> nat \<Rightarrow> Hand \<times> nat" where
  "addRandomCards rnd 0 (cardsInHand, calls) = (cardsInHand, calls)"
| "addRandomCards rnd (Suc n) (cardsInHand, calls) =
     addRandomCards rnd n
       (cardsInHand @ [randomCard (rnd calls) (rnd (calls + 1))], calls + 2)"

text \<open>
  \<^verbatim>\<open>removeLastCard\<close> is \<^verbatim>\<open>cardsInHand.pop_back()\<close> and nothing else; on an empty vector
  \<^verbatim>\<open>pop_back\<close> has undefined behaviour.
\<close>

definition removeLastCard :: "Hand \<Rightarrow> error + Hand" where
  "removeLastCard cardsInHand =
     (if cardsInHand = [] then Inl UndefinedBehaviour else Inr (butlast cardsInHand))"

definition emptyHand :: "Hand \<Rightarrow> Hand" where
  "emptyHand cardsInHand = []"

definition getSize :: "Hand \<Rightarrow> int" where
  "getSize cardsInHand = int (length cardsInHand)"

text \<open>\<^verbatim>\<open>getCardAtIndex\<close> is \<^verbatim>\<open>cardsInHand[index]\<close>, unchecked.\<close>

definition getCardAtIndex :: "Hand \<Rightarrow> int \<Rightarrow> error + Card" where
  "getCardAtIndex cardsInHand index' =
     (if 0 \<le> index' \<and> index' < getSize cardsInHand then Inr (cardsInHand ! nat index')
      else Inl UndefinedBehaviour)"

section \<open>Blackjack\<close>

text \<open>
  The functions of \<^verbatim>\<open>class Blackjack\<close> that decide the game: what they compute and
  how they change the state. What they print and the pauses between the cards are
  left out.
\<close>

subsection \<open>The optimal sum of a hand\<close>

text \<open>
  The \<^verbatim>\<open>for\<close> loop of \<^verbatim>\<open>sumOptimal\<close>, from index \<open>i\<close> on, with the values of \<^verbatim>\<open>sum\<close> and
  \<^verbatim>\<open>numberOfAcesInHand\<close> so far. An exception of \<^verbatim>\<open>getGameValue\<close> leaves the
  function; \<^verbatim>\<open>sum\<close> (here \<open>sumSoFar\<close>) is an \<^verbatim>\<open>int\<close>, and an addition that leaves
  its range is undefined.
\<close>

function sumLoop :: "Hand \<Rightarrow> int \<Rightarrow> int \<Rightarrow> int \<Rightarrow> error + int \<times> int" where
  "sumLoop handToSum i sumSoFar numberOfAcesInHand =
     (if i < getSize handToSum then
        (case getCardAtIndex handToSum i of
           Inl e \<Rightarrow> Inl e
         | Inr cardToSum \<Rightarrow>
             (case getGameValue cardToSum of
                Inl e \<Rightarrow> Inl e
              | Inr v \<Rightarrow>
                  if sumSoFar + v < INT_MIN \<or> INT_MAX < sumSoFar + v then Inl UndefinedBehaviour
                  else sumLoop handToSum (i + 1) (sumSoFar + v)
                         (if isAce cardToSum then numberOfAcesInHand + 1
                          else numberOfAcesInHand)))
      else Inr (sumSoFar, numberOfAcesInHand))"
  by pat_completeness auto
termination
  by (relation "measure (\<lambda>(handToSum, i, sumSoFar, aces). nat (getSize handToSum - i))") auto

declare sumLoop.simps [simp del]

text \<open>The \<^verbatim>\<open>while\<close> loop of \<^verbatim>\<open>sumOptimal\<close>.\<close>

function reduceAces :: "int \<Rightarrow> int \<Rightarrow> int" where
  "reduceAces sumSoFar numberOfAcesInHand =
     (if sumSoFar > 21 \<and> numberOfAcesInHand > 0
      then reduceAces (sumSoFar - 10) (numberOfAcesInHand - 1)
      else sumSoFar)"
  by pat_completeness auto
termination
  by (relation "measure (\<lambda>(sumSoFar, aces). nat aces)") auto

declare reduceAces.simps [simp del]

text \<open>
  \<^verbatim>\<open>sumOptimal\<close> returns its \<^verbatim>\<open>int\<close> as an \<^verbatim>\<open>unsigned int\<close>, which \<^verbatim>\<open>concludeRound\<close>
  stores in an \<^verbatim>\<open>int\<close> again. The sum returned is never negative (lemma
  \<open>sumOptimal_range\<close> below), so the two conversions change nothing and the result
  is an integer here.
\<close>

definition sumOptimal :: "Hand \<Rightarrow> error + int" where
  "sumOptimal handToSum =
     (case sumLoop handToSum 0 0 0 of
        Inl e \<Rightarrow> Inl e
      | Inr (sumSoFar, numberOfAcesInHand) \<Rightarrow> Inr (reduceAces sumSoFar numberOfAcesInHand))"

subsection \<open>The game state\<close>

text \<open>
  The data members of \<^verbatim>\<open>class Blackjack\<close>. \<^verbatim>\<open>playerMoney\<close> and \<^verbatim>\<open>thisRoundBet\<close>
  are of type \<^verbatim>\<open>double\<close>; every value they take is a multiple of one half, which a
  \<^verbatim>\<open>double\<close> holds exactly, so they are rational numbers here.
\<close>

record Blackjack =
  playerMoney :: rat
  thisRoundBet :: rat
  playerHand :: Hand
  dealerHand :: Hand

definition MONEY_AT_START :: rat where
  "MONEY_AT_START = 10"

text \<open>
  A \<^verbatim>\<open>Blackjack\<close> object as its default member initialisers make it: \<^verbatim>\<open>main\<close>
  creates it with \<^verbatim>\<open>Blackjack()\<close>.
\<close>

definition newBlackjack :: Blackjack where
  "newBlackjack =
     \<lparr>playerMoney = MONEY_AT_START, thisRoundBet = 0, playerHand = [], dealerHand = []\<rparr>"

text \<open>
  \<^verbatim>\<open>launchGame\<close> reads words from the console until one of them starts a round or
  quits. The words still to be read are a list; when it is used up, \<^verbatim>\<open>cin\<close> has
  failed, \<^verbatim>\<open>userInput\<close> stays empty and the loop never ends.
\<close>

datatype launched =
    StartsRound Blackjack "string list"
  | Quits
  | NeverStarts

fun launchGame :: "Blackjack \<Rightarrow> string list \<Rightarrow> launched" where
  "launchGame game [] = NeverStarts"
| "launchGame game (userInput # rest) =
     (if userInput = ''s'' \<or> userInput = ''S'' then StartsRound game rest
      else if userInput = ''q'' \<or> userInput = ''Q'' then Quits
      else launchGame game rest)"

definition main :: "string list \<Rightarrow> launched" where
  "main inputs = launchGame newBlackjack inputs"

subsection \<open>Placing the bet\<close>

text \<open>The conversion of an \<^verbatim>\<open>int\<close> to \<^verbatim>\<open>unsigned int\<close>.\<close>

definition toUnsigned :: "int \<Rightarrow> int" where
  "toUnsigned n = n mod 4294967296"

text \<open>
  \<^verbatim>\<open>requestBetAmount\<close>: each turn of the loop reads one word. The first argument is
  \<^verbatim>\<open>playerMoney\<close>. The result is the bet and the words not read yet. When no word is
  left, \<^verbatim>\<open>betStr\<close> stays empty, the check of its characters passes and \<^verbatim>\<open>stoi\<close> is
  called on the empty string.
\<close>

fun requestBetAmount :: "rat \<Rightarrow> string list \<Rightarrow> error + int \<times> string list" where
  "requestBetAmount money [] =
     (case stoi [] of Inl e \<Rightarrow> Inl e | Inr n \<Rightarrow> Inl StoiInvalidArgument)"
| "requestBetAmount money (betStr # rest) =
     (let inputIsNumerical = list_all isdigit betStr
      in if inputIsNumerical then
           (case stoi betStr of
              Inl e \<Rightarrow> Inl e
            | Inr n \<Rightarrow>
                (let bet = toUnsigned n
                 in if bet < 1 then requestBetAmount money rest
                    else if of_int bet > money then requestBetAmount money rest
                    else Inr (bet, rest)))
         else requestBetAmount money rest)"

text \<open>
  The first four statements of \<^verbatim>\<open>playRound\<close>: both hands are emptied, the bet is
  requested, stored and taken from the player's money.
\<close>

definition playRoundBet :: "Blackjack \<Rightarrow> string list \<Rightarrow> error + Blackjack \<times> string list" where
  "playRoundBet game inputs =
     (let game1 = game\<lparr>playerHand := emptyHand (playerHand game)\<rparr>;
          game2 = game1\<lparr>dealerHand := emptyHand (dealerHand game1)\<rparr>
      in case requestBetAmount (playerMoney game2) inputs of
           Inl e \<Rightarrow> Inl e
         | Inr (bet, rest) \<Rightarrow>
             (let game3 = game2\<lparr>thisRoundBet := of_int bet\<rparr>;
                  game4 = game3\<lparr>playerMoney := playerMoney game3 - thisRoundBet game3\<rparr>
              in Inr (game4, rest)))"

subsection \<open>Concluding a round\<close>

record RoundFlags =
  playerWon :: bool
  dealerWon :: bool
  wonWithBlackjack :: bool

definition noFlags :: RoundFlags where
  "noFlags = \<lparr>playerWon = False, dealerWon = False, wonWithBlackjack = False\<rparr>"

text \<open>
  The chain of conditions of \<^verbatim>\<open>concludeRound\<close> that sets the three flags, which all
  start as \<^verbatim>\<open>false\<close>. The last branch is the one that prints
  "Not defined who won, check code".
\<close>

definition decideWinner :: "int \<Rightarrow> int \<Rightarrow> int \<Rightarrow> int \<Rightarrow> RoundFlags" where
  "decideWinner dealerSum playerSum playerSize dealerSize =
     (if playerSum > 21 then noFlags\<lparr>dealerWon := True\<rparr>
      else if dealerSum > 21 then noFlags\<lparr>playerWon := True\<rparr>
      else if playerSum > dealerSum \<and> playerSum < 21 then noFlags\<lparr>playerWon := True\<rparr>
      else if dealerSum > playerSum \<and> dealerSum < 21 then noFlags\<lparr>dealerWon := True\<rparr>
      else if playerSum = 21 \<and> dealerSum \<noteq> 21 then
        (if playerSize = 2 then noFlags\<lparr>playerWon := True, wonWithBlackjack := True\<rparr>
         else noFlags\<lparr>playerWon := True\<rparr>)
      else if dealerSum = 21 \<and> playerSum \<noteq> 21 then
        (if dealerSize = 2 then noFlags\<lparr>dealerWon := True, wonWithBlackjack := True\<rparr>
         else noFlags\<lparr>dealerWon := True\<rparr>)
      else if dealerSum = 21 \<and> playerSum = 21 then
        (if playerSize = 2 \<and> dealerSize \<noteq> 2
           then noFlags\<lparr>playerWon := True, wonWithBlackjack := True\<rparr>
         else if playerSize \<noteq> 2 \<and> dealerSize = 2
           then noFlags\<lparr>dealerWon := True, wonWithBlackjack := True\<rparr>
         else noFlags)
      else if dealerSum = playerSum then noFlags
      else noFlags)"

text \<open>
  The same chain, with the name of the case each branch decides, as the comments of
  the branches describe them: a bust, a higher sum, a win with 21 that is a blackjack
  when the winning hand has two cards, a tie.
\<close>

datatype Outcome =
    PlayerBust
  | DealerBust
  | PlayerHigher
  | DealerHigher
  | PlayerBlackjack
  | DealerBlackjack
  | Push
  | NotDefined

definition roundOutcome :: "int \<Rightarrow> int \<Rightarrow> int \<Rightarrow> int \<Rightarrow> Outcome" where
  "roundOutcome dealerSum playerSum playerSize dealerSize =
     (if playerSum > 21 then PlayerBust
      else if dealerSum > 21 then DealerBust
      else if playerSum > dealerSum \<and> playerSum < 21 then PlayerHigher
      else if dealerSum > playerSum \<and> dealerSum < 21 then DealerHigher
      else if playerSum = 21 \<and> dealerSum \<noteq> 21 then
        (if playerSize = 2 then PlayerBlackjack else PlayerHigher)
      else if dealerSum = 21 \<and> playerSum \<noteq> 21 then
        (if dealerSize = 2 then DealerBlackjack else DealerHigher)
      else if dealerSum = 21 \<and> playerSum = 21 then
        (if playerSize = 2 \<and> dealerSize \<noteq> 2 then PlayerBlackjack
         else if playerSize \<noteq> 2 \<and> dealerSize = 2 then DealerBlackjack
         else Push)
      else if dealerSum = playerSum then Push
      else NotDefined)"

text \<open>\<^verbatim>\<open>payout\<close> does not read its parameter \<^verbatim>\<open>bet\<close>: it reads \<^verbatim>\<open>thisRoundBet\<close>.\<close>

definition payout :: "rat \<Rightarrow> rat \<Rightarrow> Blackjack \<Rightarrow> Blackjack" where
  "payout bet factor game =
     game\<lparr>playerMoney := playerMoney game + thisRoundBet game * factor + thisRoundBet game\<rparr>"

text \<open>The statements of \<^verbatim>\<open>concludeRound\<close> that print who won and pay.\<close>

definition settle :: "RoundFlags \<Rightarrow> Blackjack \<Rightarrow> Blackjack" where
  "settle flags game =
     (if wonWithBlackjack flags then payout (thisRoundBet game) (3 / 2) game
      else if playerWon flags \<and> \<not> wonWithBlackjack flags then payout (thisRoundBet game) 1 game
      else if dealerWon flags then game
      else game)"

text \<open>
  \<^verbatim>\<open>concludeRound\<close> up to the question whether to play a new round: the state after
  the payout, or the failure of \<^verbatim>\<open>sumOptimal\<close>.
\<close>

definition concludeRound :: "Blackjack \<Rightarrow> error + Blackjack" where
  "concludeRound game =
     (case sumOptimal (dealerHand game) of
        Inl e \<Rightarrow> Inl e
      | Inr dealerSum \<Rightarrow>
          (case sumOptimal (playerHand game) of
             Inl e \<Rightarrow> Inl e
           | Inr playerSum \<Rightarrow>
               Inr (settle (decideWinner dealerSum playerSum
                              (getSize (playerHand game)) (getSize (dealerHand game)))
                      game)))"

text \<open>The case \<^verbatim>\<open>concludeRound\<close> decides for the hands of the state.\<close>

definition outcomeOf :: "Blackjack \<Rightarrow> error + Outcome" where
  "outcomeOf game =
     (case sumOptimal (dealerHand game) of
        Inl e \<Rightarrow> Inl e
      | Inr dealerSum \<Rightarrow>
          (case sumOptimal (playerHand game) of
             Inl e \<Rightarrow> Inl e
           | Inr playerSum \<Rightarrow>
               Inr (roundOutcome dealerSum playerSum
                      (getSize (playerHand game)) (getSize (dealerHand game)))))"

text \<open>After the payout the game is over when the player cannot bet 1.\<close>

definition gameOver :: "Blackjack \<Rightarrow> bool" where
  "gameOver game \<longleftrightarrow> playerMoney game < 1"

section \<open>The hand total of the specification\<close>

text \<open>
  The cards whose game value can be computed, and that value. \<^verbatim>\<open>getGameValue\<close> fails
  only when \<^verbatim>\<open>stoi\<close> throws.
\<close>

definition hasGameValue :: "Card \<Rightarrow> bool" where
  "hasGameValue c = (case getGameValue c of Inl e \<Rightarrow> False | Inr v \<Rightarrow> True)"

definition gameValueOf :: "Card \<Rightarrow> int" where
  "gameValueOf c = (case getGameValue c of Inl e \<Rightarrow> 0 | Inr v \<Rightarrow> v)"

text \<open>The plain sum of the game values, and the number of aces.\<close>

definition nominalSum :: "Hand \<Rightarrow> int" where
  "nominalSum h = sum_list (map gameValueOf h)"

definition countAces :: "Hand \<Rightarrow> int" where
  "countAces h = int (length (filter isAce h))"

text \<open>
  The totals of a hand as the specification describes them: every total that can be
  obtained by valuing each ace as 1 or as 11 and every other card at its game value;
  the total with every ace valued at 1; and the best total, the greatest obtainable
  total that is at most 21 or, when there is none, the total with every ace at 1.
\<close>

fun aceValuations :: "Hand \<Rightarrow> int list" where
  "aceValuations [] = [0]"
| "aceValuations (c # cs) =
     (if isAce c then map (\<lambda>t. 1 + t) (aceValuations cs) @ map (\<lambda>t. 11 + t) (aceValuations cs)
      else map (\<lambda>t. gameValueOf c + t) (aceValuations cs))"

definition allAcesLow :: "Hand \<Rightarrow> int" where
  "allAcesLow h = sum_list (map (\<lambda>c. if isAce c then 1 else gameValueOf c) h)"

definition bestTotal :: "Hand \<Rightarrow> int" where
  "bestTotal h =
     (let underLimit = filter (\<lambda>t. t \<le> 21) (aceValuations h)
      in if underLimit = [] then allAcesLow h else Max (set underLimit))"

text \<open>The loop over the cards of \<open>sumLoop\<close>, by recursion on the cards still to be summed.\<close>

fun sumCards :: "Hand \<Rightarrow> int \<Rightarrow> int \<Rightarrow> error + int \<times> int" where
  "sumCards [] s a = Inr (s, a)"
| "sumCards (c # cs) s a =
     (case getGameValue c of
        Inl e \<Rightarrow> Inl e
      | Inr v \<Rightarrow>
          if s + v < INT_MIN \<or> INT_MAX < s + v then Inl UndefinedBehaviour
          else sumCards cs (s + v) (if isAce c then a + 1 else a))"

section \<open>Properties of the string functions\<close>

lemma isdigit_iff: "isdigit c \<longleftrightarrow> 48 \<le> (of_char c :: nat) \<and> (of_char c :: nat) \<le> 57"
  by (simp add: isdigit_def less_eq_char_def)

lemma isdigit_not_isspace: "isdigit c \<Longrightarrow> \<not> isspace c"
  by (auto simp: isdigit_iff isspace_def less_eq_char_def)

lemma isdigit_not_sign: "isdigit c \<Longrightarrow> c \<noteq> CHR ''-'' \<and> c \<noteq> CHR ''+''"
  by (auto simp: isdigit_iff)

lemma digitValue_nonneg: "isdigit c \<Longrightarrow> 0 \<le> digitValue c"
  by (simp add: isdigit_iff digitValue_def)

lemma decimal_nonneg: "0 \<le> acc \<Longrightarrow> list_all isdigit ds \<Longrightarrow> 0 \<le> decimal acc ds"
  by (induction ds arbitrary: acc) (simp_all add: digitValue_nonneg)

lemma stoi_digit_first:
  assumes "isdigit c"
  shows "stoi (c # cs) =
           (if INT_MAX < decimal 0 (takeWhile isdigit (c # cs)) then Inl StoiOutOfRange
            else Inr (decimal 0 (takeWhile isdigit (c # cs))))"
proof -
  have "0 \<le> decimal 0 (takeWhile isdigit (c # cs))"
    by (rule decimal_nonneg) (simp_all add: list_all_iff, meson set_takeWhileD)
  then have "\<not> decimal 0 (takeWhile isdigit (c # cs)) < INT_MIN"
    by (simp add: INT_MIN_def)
  with assms isdigit_not_isspace [OF assms] isdigit_not_sign [OF assms]
  show ?thesis
    by (simp add: stoi_def Let_def)
qed

lemma between_2_9_first:
  assumes "''2'' \<le> s" "s \<le> ''9''"
  obtains c cs where "s = c # cs" "isdigit c"
proof (cases s)
  case Nil
  with assms show ?thesis by simp
next
  case (Cons c cs)
  with assms have "CHR ''2'' \<le> c" "c \<le> CHR ''9''"
    by (auto simp: less_eq_char_def less_char_def)
  then have "isdigit c"
    by (auto simp: isdigit_def less_eq_char_def)
  with Cons that show ?thesis by blast
qed

lemma getGameValue_nonneg:
  assumes "getGameValue c = Inr v"
  shows "0 \<le> v"
proof (cases "''2'' \<le> faceValueString c \<and> faceValueString c \<le> ''9''")
  case True
  then obtain d ds where s: "faceValueString c = d # ds" and d: "isdigit d"
    by (auto elim: between_2_9_first)
  have "0 \<le> decimal 0 (takeWhile isdigit (d # ds))"
    by (rule decimal_nonneg) (simp_all add: list_all_iff, meson set_takeWhileD)
  with assms True s stoi_digit_first [OF d, of ds] show ?thesis
    by (auto simp: getGameValue_def split: if_splits)
next
  case False
  with assms show ?thesis
    by (auto simp: getGameValue_def split: if_splits)
qed

lemma getGameValue_le: "getGameValue c = Inr v \<Longrightarrow> v \<le> INT_MAX"
  by (auto simp: getGameValue_def stoi_def Let_def INT_MAX_def split: if_splits)

lemma isAce_value: "isAce c \<Longrightarrow> getGameValue c = Inr 11"
  by (simp add: isAce_def getGameValue_def split: if_splits)

section \<open>Properties of the optimal sum\<close>

lemma sumLoop_sumCards:
  "i \<le> length h \<Longrightarrow> sumLoop h (int i) s a = sumCards (drop i h) s a"
proof (induction "length h - i" arbitrary: i s a)
  case 0
  then show ?case
    by (simp add: sumLoop.simps [of h] getSize_def)
next
  case (Suc n)
  then have i: "i < length h" by simp
  then have d: "drop i h = h ! i # drop (Suc i) h"
    by (simp add: Cons_nth_drop_Suc)
  have n: "n = length h - Suc i" using Suc.hyps(2) by simp
  have step: "sumLoop h (int i + 1) s' a' = sumCards (drop (Suc i) h) s' a'" for s' a'
    using Suc.hyps(1) [OF n, of s' a'] i by (simp add: add.commute)
  show ?case
    using i by (simp add: sumLoop.simps [of h "int i"] getSize_def getCardAtIndex_def d step
        split: sum.splits)
qed

lemma sumOptimal_sumCards:
  "sumOptimal h = (case sumCards h 0 0 of Inl e \<Rightarrow> Inl e | Inr (s, a) \<Rightarrow> Inr (reduceAces s a))"
  using sumLoop_sumCards [of 0 h 0 0] by (simp add: sumOptimal_def)

lemma sumCards_ok:
  "list_all hasGameValue h \<Longrightarrow> INT_MIN \<le> s \<Longrightarrow> s + nominalSum h \<le> INT_MAX \<Longrightarrow>
   sumCards h s a = Inr (s + nominalSum h, a + countAces h)"
proof (induction h arbitrary: s a)
  case Nil
  then show ?case by (simp add: nominalSum_def countAces_def)
next
  case (Cons c cs)
  from Cons.prems(1) obtain v where v: "getGameValue c = Inr v"
    by (auto simp: hasGameValue_def split: sum.splits)
  then have v0: "0 \<le> v" by (rule getGameValue_nonneg)
  have gv: "gameValueOf c = v" using v by (simp add: gameValueOf_def)
  have ns: "nominalSum (c # cs) = v + nominalSum cs"
    by (simp add: nominalSum_def gv)
  have rest0: "0 \<le> nominalSum cs"
    unfolding nominalSum_def
    by (rule sum_list_nonneg) (auto simp: gameValueOf_def getGameValue_nonneg split: sum.splits)
  have ca: "a + countAces (c # cs) = (if isAce c then a + 1 else a) + countAces cs"
    by (simp add: countAces_def)
  have "sumCards cs (s + v) (if isAce c then a + 1 else a)
          = Inr (s + v + nominalSum cs, (if isAce c then a + 1 else a) + countAces cs)"
    using Cons.prems v0 by (intro Cons.IH) (simp_all add: ns)
  with Cons.prems v0 rest0 show ?case
    by (simp add: v ns ca)
qed

lemma sumCards_Inr:
  "sumCards h s a = Inr (S, k) \<Longrightarrow> s \<le> INT_MAX \<Longrightarrow>
   list_all hasGameValue h \<and> S = s + nominalSum h \<and> k = a + countAces h \<and> S \<le> INT_MAX"
proof (induction h arbitrary: s a)
  case Nil
  then show ?case by (simp add: nominalSum_def countAces_def)
next
  case (Cons c cs)
  from Cons.prems(1) obtain v where v: "getGameValue c = Inr v"
    by (auto split: sum.splits)
  have gv: "gameValueOf c = v" "hasGameValue c"
    using v by (simp_all add: gameValueOf_def hasGameValue_def)
  from Cons.prems(1) v have ok: "s + v \<le> INT_MAX"
    and rest: "sumCards cs (s + v) (if isAce c then a + 1 else a) = Inr (S, k)"
    by (auto split: if_splits)
  from Cons.IH [OF rest ok] show ?case
    by (auto simp: nominalSum_def countAces_def gv)
qed

lemma reduceAces_step:
  "sumSoFar > 21 \<Longrightarrow> aces > 0 \<Longrightarrow> reduceAces sumSoFar aces = reduceAces (sumSoFar - 10) (aces - 1)"
  by (subst reduceAces.simps) simp

lemma reduceAces_stop:
  "\<not> (sumSoFar > 21 \<and> aces > 0) \<Longrightarrow> reduceAces sumSoFar aces = sumSoFar"
  by (subst reduceAces.simps) auto

lemma reduceAces_form:
  "0 \<le> k \<Longrightarrow> \<exists>j. 0 \<le> j \<and> j \<le> k \<and> reduceAces S k = S - 10 * j"
proof (induction S k rule: reduceAces.induct)
  case (1 S k)
  show ?case
  proof (cases "S > 21 \<and> k > 0")
    case True
    with "1" obtain j where "0 \<le> j" "j \<le> k - 1" "reduceAces (S - 10) (k - 1) = S - 10 - 10 * j"
      by auto
    with True show ?thesis
      by (intro exI [of _ "j + 1"]) (simp add: reduceAces_step reduceAces_stop)
  next
    case False
    with "1" show ?thesis
      by (intro exI [of _ 0]) (simp add: reduceAces_step reduceAces_stop)
  qed
qed

lemma reduceAces_stops:
  "0 \<le> k \<Longrightarrow> reduceAces S k \<le> 21 \<or> reduceAces S k = S - 10 * k"
proof (induction S k rule: reduceAces.induct)
  case (1 S k)
  show ?case
  proof (cases "S > 21 \<and> k > 0")
    case True
    with "1" show ?thesis by (simp add: reduceAces_step reduceAces_stop)
  next
    case False
    with "1" show ?thesis by (auto simp: reduceAces_step reduceAces_stop)
  qed
qed

lemma reduceAces_greatest:
  "0 \<le> j \<Longrightarrow> j \<le> k \<Longrightarrow> S - 10 * j \<le> 21 \<Longrightarrow> S - 10 * j \<le> reduceAces S k"
proof (induction S k arbitrary: j rule: reduceAces.induct)
  case (1 S k)
  show ?case
  proof (cases "S > 21 \<and> k > 0")
    case True
    with "1.prems" have j: "0 \<le> j - 1" "j - 1 \<le> k - 1" "S - 10 - 10 * (j - 1) \<le> 21"
      by auto
    from "1.IH" [OF True j] True show ?thesis
      by (simp add: reduceAces_step reduceAces_stop)
  next
    case False
    with "1.prems" show ?thesis by (auto simp: reduceAces_step reduceAces_stop)
  qed
qed

lemma reduceAces_no_aces: "reduceAces S 0 = S"
  by (simp add: reduceAces_stop)

lemma aceValuations_set:
  "list_all hasGameValue h \<Longrightarrow>
   set (aceValuations h) = (\<lambda>j. nominalSum h - 10 * j) ` {0..countAces h}"
proof (induction h)
  case Nil
  then show ?case by (simp add: nominalSum_def countAces_def)
next
  case (Cons c cs)
  then have IH: "set (aceValuations cs) = (\<lambda>j. nominalSum cs - 10 * j) ` {0..countAces cs}"
    by simp
  have k0: "0 \<le> countAces cs" by (simp add: countAces_def)
  show ?case
  proof (cases "isAce c")
    case True
    then have ns: "nominalSum (c # cs) = 11 + nominalSum cs"
      and ca: "countAces (c # cs) = countAces cs + 1"
      by (simp_all add: nominalSum_def countAces_def gameValueOf_def isAce_value)
    have "(\<lambda>j. 11 + nominalSum cs - 10 * j) ` {0..countAces cs + 1}
            = (\<lambda>j. 1 + (nominalSum cs - 10 * j)) ` {0..countAces cs}
              \<union> (\<lambda>j. 11 + (nominalSum cs - 10 * j)) ` {0..countAces cs}" (is "?L = ?A \<union> ?B")
    proof (intro set_eqI iffI)
      fix t assume "t \<in> ?L"
      then obtain j where j: "0 \<le> j" "j \<le> countAces cs + 1" "t = 11 + nominalSum cs - 10 * j"
        by auto
      show "t \<in> ?A \<union> ?B"
      proof (cases "j = 0")
        case True
        with j k0 have "t \<in> ?B" by (intro image_eqI [of _ _ 0]) simp_all
        then show ?thesis by simp
      next
        case False
        with j have "t \<in> ?A" by (intro image_eqI [of _ _ "j - 1"]) simp_all
        then show ?thesis by simp
      qed
    next
      fix t assume "t \<in> ?A \<union> ?B"
      then show "t \<in> ?L"
      proof
        assume "t \<in> ?A"
        then obtain j where "0 \<le> j" "j \<le> countAces cs" "t = 1 + (nominalSum cs - 10 * j)"
          by auto
        then show ?thesis by (intro image_eqI [of _ _ "j + 1"]) simp_all
      next
        assume "t \<in> ?B"
        then obtain j where "0 \<le> j" "j \<le> countAces cs" "t = 11 + (nominalSum cs - 10 * j)"
          by auto
        then show ?thesis by (intro image_eqI [of _ _ j]) simp_all
      qed
    qed
    with True IH show ?thesis
      by (simp add: ns ca image_image image_Un)
  next
    case False
    then have ns: "nominalSum (c # cs) = gameValueOf c + nominalSum cs"
      and ca: "countAces (c # cs) = countAces cs"
      by (simp_all add: nominalSum_def countAces_def)
    from False IH show ?thesis
      by (simp add: ns ca image_image add_diff_eq)
  qed
qed

lemma allAcesLow_eq:
  "list_all hasGameValue h \<Longrightarrow> allAcesLow h = nominalSum h - 10 * countAces h"
  by (induction h)
     (simp_all add: allAcesLow_def nominalSum_def countAces_def gameValueOf_def isAce_value)

lemma aceValuations_mem:
  assumes "list_all hasGameValue h"
  shows "t \<in> set (aceValuations h) \<longleftrightarrow> (\<exists>j. 0 \<le> j \<and> j \<le> countAces h \<and> t = nominalSum h - 10 * j)"
proof -
  have "t \<in> set (aceValuations h) \<longleftrightarrow> (\<exists>j\<in>{0..countAces h}. t = nominalSum h - 10 * j)"
    unfolding aceValuations_set [OF assms] by (rule image_iff)
  also have "\<dots> \<longleftrightarrow> (\<exists>j. 0 \<le> j \<and> j \<le> countAces h \<and> t = nominalSum h - 10 * j)"
    by (simp add: Bex_def conj_assoc)
  finally show ?thesis .
qed

lemma bestTotal_reduceAces:
  assumes "list_all hasGameValue h"
  shows "bestTotal h = reduceAces (nominalSum h) (countAces h)"
proof -
  let ?S = "nominalSum h" and ?k = "countAces h"
  let ?r = "reduceAces ?S ?k"
  let ?ok = "filter (\<lambda>t. t \<le> 21) (aceValuations h)"
  have k0: "0 \<le> ?k" by (simp add: countAces_def)
  have mem: "t \<in> set ?ok \<longleftrightarrow> (\<exists>j. 0 \<le> j \<and> j \<le> ?k \<and> t = ?S - 10 * j) \<and> t \<le> 21" for t
    by (simp add: aceValuations_mem [OF assms])
  obtain j0 where j0: "0 \<le> j0" "j0 \<le> ?k" "?r = ?S - 10 * j0"
    using reduceAces_form [OF k0, of ?S] by blast
  show ?thesis
  proof (cases "?ok = []")
    case True
    have "\<not> ?r \<le> 21"
    proof
      assume "?r \<le> 21"
      with j0 have "?r \<in> set ?ok" unfolding mem by blast
      with True show False by simp
    qed
    with reduceAces_stops [OF k0, of ?S] have "?r = ?S - 10 * ?k" by simp
    with True allAcesLow_eq [OF assms] show ?thesis
      by (simp add: bestTotal_def)
  next
    case False
    then obtain t where "t \<in> set ?ok"
      by (cases ?ok) auto
    then obtain j where j: "0 \<le> j" "j \<le> ?k" "t = ?S - 10 * j" "t \<le> 21"
      unfolding mem by blast
    have r21: "?r \<le> 21"
    proof (rule ccontr)
      assume n: "\<not> ?r \<le> 21"
      with reduceAces_stops [OF k0, of ?S] have "?r = ?S - 10 * ?k" by simp
      moreover have "?S - 10 * ?k \<le> t" using j by simp
      ultimately show False using j n by simp
    qed
    have "Max (set ?ok) = ?r"
    proof (rule Max_eqI)
      show "finite (set ?ok)" by simp
      show "?r \<in> set ?ok" unfolding mem using j0 r21 by blast
      fix y assume "y \<in> set ?ok"
      then obtain i where "0 \<le> i" "i \<le> ?k" "y = ?S - 10 * i" "y \<le> 21"
        unfolding mem by blast
      then show "y \<le> ?r" using reduceAces_greatest [of i ?k ?S] by simp
    qed
    with False show ?thesis by (simp add: bestTotal_def)
  qed
qed

section \<open>The cards the game deals\<close>

text \<open>The definitions that evaluate the cards of a concrete hand.\<close>

lemmas card_eval = getGameValue_def isAce_def stoi_def isdigit_def isspace_def digitValue_def
  INT_MAX_def INT_MIN_def hasGameValue_def gameValueOf_def

lemma generateRandomCardValueString_mod:
  "generateRandomCardValueString r = generateRandomCardValueString (r mod 13)"
  by (simp add: generateRandomCardValueString_def)

lemma generateRandomCardValueString_table:
  "list_all (\<lambda>n. generateRandomCardValueString n \<in>
       set [''K'', ''Q'', ''J'', ''10'', ''9'', ''8'', ''7'', ''6'', ''5'', ''4'', ''3'', ''2'', ''A''])
     [0, 1, 2, 3, 4, 5, 6, 7, 8, 9, 10, 11, 12]"
  by (simp add: generateRandomCardValueString_def to_string.simps digitChar_def)

lemma below_13: "(n::nat) < 13 \<Longrightarrow> n \<in> set [0, 1, 2, 3, 4, 5, 6, 7, 8, 9, 10, 11, 12]"
  by (simp only: list.set insert_iff empty_iff) arith

lemma generateRandomCardValueString_dealt:
  "generateRandomCardValueString r \<in>
     set [''K'', ''Q'', ''J'', ''10'', ''9'', ''8'', ''7'', ''6'', ''5'', ''4'', ''3'', ''2'', ''A'']"
proof -
  have "r mod 13 < 13" by simp
  then have "r mod 13 \<in> set [0, 1, 2, 3, 4, 5, 6, 7, 8, 9, 10, 11, 12]"
    by (rule below_13)
  with generateRandomCardValueString_table
  have "generateRandomCardValueString (r mod 13) \<in>
     set [''K'', ''Q'', ''J'', ''10'', ''9'', ''8'', ''7'', ''6'', ''5'', ''4'', ''3'', ''2'', ''A'']"
    unfolding list_all_iff by blast
  then show ?thesis
    by (simp only: generateRandomCardValueString_mod [of r])
qed

lemma getGameValue_ranks:
  "getGameValue (card ''A'' s) = Inr 11"
  "getGameValue (card ''2'' s) = Inr 2"
  "getGameValue (card ''3'' s) = Inr 3"
  "getGameValue (card ''4'' s) = Inr 4"
  "getGameValue (card ''5'' s) = Inr 5"
  "getGameValue (card ''6'' s) = Inr 6"
  "getGameValue (card ''7'' s) = Inr 7"
  "getGameValue (card ''8'' s) = Inr 8"
  "getGameValue (card ''9'' s) = Inr 9"
  "getGameValue (card ''10'' s) = Inr 10"
  "getGameValue (card ''J'' s) = Inr 10"
  "getGameValue (card ''Q'' s) = Inr 10"
  "getGameValue (card ''K'' s) = Inr 10"
  by (simp_all add: card_eval)

lemma randomCard_value:
  "\<exists>v. getGameValue (randomCard r1 r2) = Inr v \<and> 2 \<le> v \<and> v \<le> 11 \<and>
       (isAce (randomCard r1 r2) \<longleftrightarrow> v = 11)"
proof -
  let ?ranks = "[''K'', ''Q'', ''J'', ''10'', ''9'', ''8'', ''7'', ''6'', ''5'', ''4'', ''3'', ''2'', ''A'']"
  let ?P = "\<lambda>str. \<exists>v. getGameValue (card str (generateRandomCardSymbolString r2)) = Inr v
       \<and> 2 \<le> v \<and> v \<le> 11 \<and>
       (isAce (card str (generateRandomCardSymbolString r2)) \<longleftrightarrow> v = 11)"
  have "list_all ?P ?ranks"
    by (simp add: getGameValue_ranks isAce_def)
  with generateRandomCardValueString_dealt [of r1]
  have "?P (generateRandomCardValueString r1)"
    unfolding list_all_iff by blast
  then show ?thesis
    by (simp only: randomCard_def)
qed

section \<open>More properties of the optimal sum\<close>

lemma addRandomCards_one:
  "addRandomCards rnd 1 (h, calls) = (h @ [randomCard (rnd calls) (rnd (calls + 1))], calls + 2)"
  unfolding One_nat_def by simp

lemma sumOptimal_Inr:
  assumes "sumOptimal h = Inr s"
  shows "list_all hasGameValue h" and "nominalSum h \<le> INT_MAX"
    and "s = reduceAces (nominalSum h) (countAces h)"
proof -
  from assms obtain S k where sc: "sumCards h 0 0 = Inr (S, k)" and s: "s = reduceAces S k"
    by (auto simp: sumOptimal_sumCards split: sum.splits)
  have "(0::int) \<le> INT_MAX" by (simp add: INT_MAX_def)
  from sumCards_Inr [OF sc this] s
  show "list_all hasGameValue h" and "nominalSum h \<le> INT_MAX"
    and "s = reduceAces (nominalSum h) (countAces h)"
    by simp_all
qed

lemma sumOptimal_ok:
  assumes "list_all hasGameValue h" and "nominalSum h \<le> INT_MAX"
  shows "sumOptimal h = Inr (reduceAces (nominalSum h) (countAces h))"
proof -
  have "sumCards h 0 0 = Inr (nominalSum h, countAces h)"
    using sumCards_ok [OF assms(1), of 0 0] assms(2) by (simp add: INT_MIN_def)
  then show ?thesis by (simp add: sumOptimal_sumCards)
qed

lemma countAces_nonneg: "0 \<le> countAces h"
  by (simp add: countAces_def)

lemma sumOptimal_form:
  assumes "sumOptimal h = Inr s"
  obtains j where "0 \<le> j" "j \<le> countAces h" "s = nominalSum h - 10 * j"
  using reduceAces_form [OF countAces_nonneg, of h "nominalSum h"] sumOptimal_Inr(3) [OF assms]
  by auto

lemma allAcesLow_le_sumOptimal:
  assumes "sumOptimal h = Inr s"
  shows "allAcesLow h \<le> s"
proof -
  obtain j where "0 \<le> j" "j \<le> countAces h" "s = nominalSum h - 10 * j"
    using assms by (rule sumOptimal_form)
  with allAcesLow_eq [OF sumOptimal_Inr(1) [OF assms]] show ?thesis by simp
qed

lemma allAcesLow_nonneg:
  "list_all hasGameValue h \<Longrightarrow> 0 \<le> allAcesLow h"
  unfolding allAcesLow_def
  by (rule sum_list_nonneg) (auto simp: gameValueOf_def getGameValue_nonneg split: sum.splits)

lemma allAcesLow_append:
  "allAcesLow (h @ [c]) = allAcesLow h + (if isAce c then 1 else gameValueOf c)"
  by (simp add: allAcesLow_def)

lemma allAcesLow_random:
  "allAcesLow h < allAcesLow (h @ [randomCard r1 r2])"
  using randomCard_value [of r1 r2] by (auto simp: allAcesLow_append gameValueOf_def)

lemma nominalSum_aces:
  "list_all hasGameValue h \<Longrightarrow> 11 * countAces h \<le> nominalSum h"
proof (induction h)
  case Nil
  then show ?case by (simp add: nominalSum_def countAces_def)
next
  case (Cons c cs)
  then obtain v where v: "getGameValue c = Inr v"
    by (auto simp: hasGameValue_def split: sum.splits)
  with getGameValue_nonneg [OF v] isAce_value [of c] Cons show ?case
    by (auto simp: nominalSum_def countAces_def gameValueOf_def)
qed

lemma nominalSum_small:
  assumes "sumOptimal h = Inr s" and "s < 17"
  shows "nominalSum h \<le> 176"
proof -
  obtain j where j: "0 \<le> j" "j \<le> countAces h" "s = nominalSum h - 10 * j"
    using assms(1) by (rule sumOptimal_form)
  from nominalSum_aces [OF sumOptimal_Inr(1) [OF assms(1)]] j assms(2) show ?thesis
    by simp
qed

lemma sumOptimal_after_draw:
  assumes "sumOptimal h = Inr s" and "s < 17"
  shows "\<exists>s'. sumOptimal (h @ [randomCard r1 r2]) = Inr s'"
proof -
  obtain v where v: "getGameValue (randomCard r1 r2) = Inr v" "v \<le> 11"
    using randomCard_value [of r1 r2] by blast
  have "list_all hasGameValue (h @ [randomCard r1 r2])"
    using sumOptimal_Inr(1) [OF assms(1)] v by (simp add: hasGameValue_def)
  moreover have "nominalSum (h @ [randomCard r1 r2]) \<le> INT_MAX"
    using nominalSum_small [OF assms] v by (simp add: nominalSum_def gameValueOf_def INT_MAX_def)
  ultimately show ?thesis using sumOptimal_ok by blast
qed

lemma reduceAces_bounds:
  "0 \<le> S \<Longrightarrow> 0 \<le> reduceAces S k \<and> reduceAces S k \<le> S"
proof (induction S k rule: reduceAces.induct)
  case (1 S k)
  show ?case
  proof (cases "S > 21 \<and> k > 0")
    case True
    with "1" show ?thesis by (simp add: reduceAces_step)
  next
    case False
    with "1" show ?thesis by (simp add: reduceAces_stop)
  qed
qed

lemma nominalSum_nonneg: "0 \<le> nominalSum h"
  unfolding nominalSum_def
  by (rule sum_list_nonneg) (auto simp: gameValueOf_def getGameValue_nonneg split: sum.splits)

lemma sumOptimal_range:
  assumes "sumOptimal h = Inr s"
  shows "0 \<le> s \<and> s \<le> INT_MAX"
  using reduceAces_bounds [OF nominalSum_nonneg, of h "countAces h"] sumOptimal_Inr [OF assms]
  by simp

text \<open>
  The hands the game deals can be summed: every card of \<^verbatim>\<open>Card()\<close> has a game value
  of at most 11, and the sum of fewer than 195 million of them fits an \<^verbatim>\<open>int\<close>.
\<close>

lemma nominalSum_random_hand:
  "\<forall>c\<in>set h. \<exists>r1 r2. c = randomCard r1 r2 \<Longrightarrow>
   list_all hasGameValue h \<and> nominalSum h \<le> 11 * int (length h)"
proof (induction h)
  case Nil
  then show ?case by (simp add: nominalSum_def)
next
  case (Cons c cs)
  then obtain r1 r2 where c: "c = randomCard r1 r2" by auto
  obtain v where "getGameValue c = Inr v" "v \<le> 11"
    using randomCard_value [of r1 r2] c by blast
  with Cons show ?case
    by (simp add: nominalSum_def hasGameValue_def gameValueOf_def)
qed

lemma random_hand_summable:
  assumes "\<forall>c\<in>set h. \<exists>r1 r2. c = randomCard r1 r2" and "length h \<le> 195225786"
  shows "\<exists>s. sumOptimal h = Inr s"
proof -
  from nominalSum_random_hand [OF assms(1)] assms(2)
  have "list_all hasGameValue h" and "nominalSum h \<le> INT_MAX"
    by (simp_all add: INT_MAX_def)
  then show ?thesis using sumOptimal_ok by blast
qed

section \<open>The dealer's turn\<close>

text \<open>
  The last loop of \<^verbatim>\<open>playRound\<close>: while the optimal sum of the dealer's hand is below 17,
  one random card is added to it. The state of the loop is the dealer's hand and the
  number of calls of \<^verbatim>\<open>rand()\<close> made so far. Every card \<^verbatim>\<open>Card()\<close> makes raises the
  total of the hand with its aces valued at 1, which the optimal sum is never below:
  this is why the recursion ends.
\<close>

function dealerLoop :: "rng \<Rightarrow> Hand \<times> nat \<Rightarrow> error + Hand \<times> nat" where
  "dealerLoop rnd (dealerHand', calls) =
     (case sumOptimal dealerHand' of
        Inl e \<Rightarrow> Inl e
      | Inr dealerSum \<Rightarrow>
          if dealerSum < 17 then dealerLoop rnd (addRandomCards rnd 1 (dealerHand', calls))
          else Inr (dealerHand', calls))"
  by pat_completeness auto
termination
proof (relation "measure (\<lambda>(rnd, h, calls). nat (17 - allAcesLow h))")
  show "wf (measure (\<lambda>(rnd, h, calls). nat (17 - allAcesLow h)))" by simp
next
  fix rnd :: rng and dealerHand' :: Hand and calls :: nat and dealerSum :: int
  assume s: "sumOptimal dealerHand' = Inr dealerSum" and lt: "dealerSum < 17"
  from allAcesLow_le_sumOptimal [OF s] lt
    allAcesLow_random [of dealerHand' "rnd calls" "rnd (calls + 1)"]
  show "((rnd, addRandomCards rnd 1 (dealerHand', calls)), (rnd, dealerHand', calls))
          \<in> measure (\<lambda>(rnd, h, calls). nat (17 - allAcesLow h))"
    by (simp add: addRandomCards_one)
qed

declare dealerLoop.simps [simp del]

lemma dealerLoop_result:
  assumes "sumOptimal h = Inr s"
  shows "\<exists>h' calls' s'. dealerLoop rnd (h, calls) = Inr (h', calls') \<and>
           sumOptimal h' = Inr s' \<and> 17 \<le> s' \<and>
           take (length h) h' = h \<and>
           int (length h') \<le> int (length h) + max 0 (17 - allAcesLow h)"
  using assms
proof (induction rnd "(h, calls)" arbitrary: h calls s rule: dealerLoop.induct)
  case (1 rnd h calls)
  show ?case
  proof (cases "s < 17")
    case False
    with "1.prems" show ?thesis
      by (simp add: dealerLoop.simps [of rnd h calls])
  next
    case True
    let ?c = "randomCard (rnd calls) (rnd (calls + 1))"
    obtain s1 where s1: "sumOptimal (h @ [?c]) = Inr s1"
      using sumOptimal_after_draw [OF "1.prems" True] by blast
    from "1.hyps" [OF "1.prems" True addRandomCards_one s1]
    obtain h' calls' s' where r: "dealerLoop rnd (h @ [?c], calls + 2) = Inr (h', calls')"
      "sumOptimal h' = Inr s'" "17 \<le> s'" "take (length (h @ [?c])) h' = h @ [?c]"
      "int (length h') \<le> int (length (h @ [?c])) + max 0 (17 - allAcesLow (h @ [?c]))"
      by blast
    have low: "allAcesLow h < 17" "allAcesLow h < allAcesLow (h @ [?c])"
      using allAcesLow_le_sumOptimal [OF "1.prems"] True allAcesLow_random by auto
    have "take (length h) h' = h"
      using r(4) by (metis append_eq_conv_conj length_append take_add take_all_iff le_refl
          append_take_drop_id append.assoc)
    moreover have "int (length h') \<le> int (length h) + max 0 (17 - allAcesLow h)"
      using r(5) low by simp
    ultimately show ?thesis
      using r(1-3) "1.prems" True
      by (simp add: dealerLoop.simps [of rnd h calls] addRandomCards_one)
  qed
qed

lemma dealerLoop_from_dealt_hand:
  assumes "\<forall>c\<in>set h. \<exists>r1 r2. c = randomCard r1 r2" and "length h \<le> 195225786"
  shows "\<exists>h' calls' s'. dealerLoop rnd (h, calls) = Inr (h', calls') \<and>
           sumOptimal h' = Inr s' \<and> 17 \<le> s'"
proof -
  from random_hand_summable [OF assms] obtain s where "sumOptimal h = Inr s" ..
  from dealerLoop_result [OF this, of rnd calls] show ?thesis by blast
qed

section \<open>A game session\<close>

text \<open>
  What happens to the game state in a session, one event at a time: \<^verbatim>\<open>playRound\<close>
  requests the bet and takes it from the player's money, random cards are added to
  the dealer's or the player's hand, the dealer plays the loop above, and
  \<^verbatim>\<open>concludeRound\<close> decides the round and pays. A session is a list of such events, in
  any order; the rounds \<^verbatim>\<open>playRound\<close> plays are among them. A step that ends the
  program gives the failure.
\<close>

datatype event =
    PlacesBet "string list"
  | DealerDraws rng nat
  | PlayerDraws rng nat
  | DealerPlays rng nat
  | Concludes

fun step :: "Blackjack \<Rightarrow> event \<Rightarrow> error + Blackjack" where
  "step game (PlacesBet inputs) =
     (case playRoundBet game inputs of Inl e \<Rightarrow> Inl e | Inr (game', rest) \<Rightarrow> Inr game')"
| "step game (DealerDraws rnd calls) =
     Inr (game\<lparr>dealerHand := fst (addRandomCards rnd 1 (dealerHand game, calls))\<rparr>)"
| "step game (PlayerDraws rnd calls) =
     Inr (game\<lparr>playerHand := fst (addRandomCards rnd 1 (playerHand game, calls))\<rparr>)"
| "step game (DealerPlays rnd calls) =
     (case dealerLoop rnd (dealerHand game, calls) of
        Inl e \<Rightarrow> Inl e
      | Inr (dealerHand', calls') \<Rightarrow> Inr (game\<lparr>dealerHand := dealerHand'\<rparr>))"
| "step game Concludes = concludeRound game"

fun session :: "Blackjack \<Rightarrow> event list \<Rightarrow> error + Blackjack" where
  "session game [] = Inr game"
| "session game (ev # evs) =
     (case step game ev of Inl e \<Rightarrow> Inl e | Inr game' \<Rightarrow> session game' evs)"

section \<open>Properties of the bet and the payout\<close>

lemma stoi_digits_nonneg:
  assumes "list_all isdigit str" and "stoi str = Inr n"
  shows "0 \<le> n \<and> n \<le> INT_MAX"
proof (cases str)
  case Nil
  with assms(2) show ?thesis by (simp add: stoi_def)
next
  case (Cons c cs)
  with assms(1) have c: "isdigit c" by simp
  have "0 \<le> decimal 0 (takeWhile isdigit (c # cs))"
    by (rule decimal_nonneg) (simp_all add: list_all_iff, meson set_takeWhileD)
  with assms(2) Cons stoi_digit_first [OF c, of cs] show ?thesis
    by (auto split: if_splits)
qed

lemma toUnsigned_id: "0 \<le> n \<Longrightarrow> n \<le> INT_MAX \<Longrightarrow> toUnsigned n = n"
  by (simp add: toUnsigned_def INT_MAX_def)

lemma requestBetAmount_Inr:
  "requestBetAmount money inputs = Inr (bet, rest) \<Longrightarrow> 1 \<le> bet \<and> of_int bet \<le> money"
proof (induction inputs)
  case Nil
  then show ?case by (simp split: sum.splits)
next
  case (Cons betStr inputs)
  show ?case
  proof (cases "list_all isdigit betStr")
    case False
    with Cons show ?thesis by simp
  next
    case True
    with Cons.prems obtain n where n: "stoi betStr = Inr n"
      by (auto split: sum.splits)
    with Cons True show ?thesis
      by (auto simp: Let_def split: if_splits)
  qed
qed

lemma playRoundBet_money:
  assumes "playRoundBet game inputs = Inr (game', rest)"
  shows "1 \<le> thisRoundBet game' \<and> thisRoundBet game' \<le> playerMoney game \<and>
         playerMoney game' = playerMoney game - thisRoundBet game'"
proof -
  from assms obtain bet where b: "requestBetAmount (playerMoney game) inputs = Inr (bet, rest)"
    and g: "game' = game\<lparr>playerHand := [], dealerHand := [], thisRoundBet := of_int bet,
                    playerMoney := playerMoney game - of_int bet\<rparr>"
    by (auto simp: playRoundBet_def emptyHand_def Let_def split: sum.splits)
  from requestBetAmount_Inr [OF b] g show ?thesis by simp
qed

lemma settle_money:
  "0 \<le> thisRoundBet game \<Longrightarrow>
   playerMoney game \<le> playerMoney (settle flags game) \<and>
   thisRoundBet (settle flags game) = thisRoundBet game"
  by (simp add: settle_def payout_def)

lemma concludeRound_money:
  "concludeRound game = Inr game' \<Longrightarrow> 0 \<le> thisRoundBet game \<Longrightarrow>
   playerMoney game \<le> playerMoney game' \<and> thisRoundBet game' = thisRoundBet game"
  by (auto simp: concludeRound_def settle_money split: sum.splits)

lemma step_invariant:
  assumes "step game ev = Inr game'" and "0 \<le> playerMoney game" and "0 \<le> thisRoundBet game"
  shows "0 \<le> playerMoney game' \<and> 0 \<le> thisRoundBet game'"
proof (cases ev)
  case (PlacesBet inputs)
  with assms(1) obtain rest where "playRoundBet game inputs = Inr (game', rest)"
    by (auto split: sum.splits)
  from playRoundBet_money [OF this] show ?thesis by simp
next
  case (DealerDraws rnd calls)
  with assms show ?thesis by auto
next
  case (PlayerDraws rnd calls)
  with assms show ?thesis by auto
next
  case (DealerPlays rnd calls)
  with assms show ?thesis by (auto split: sum.splits)
next
  case Concludes
  with assms(1) have "concludeRound game = Inr game'" by simp
  from concludeRound_money [OF this assms(3)] assms(2,3) show ?thesis by simp
qed

lemma session_invariant:
  "session game events = Inr game' \<Longrightarrow> 0 \<le> playerMoney game \<Longrightarrow> 0 \<le> thisRoundBet game \<Longrightarrow>
   0 \<le> playerMoney game' \<and> 0 \<le> thisRoundBet game'"
proof (induction events arbitrary: game)
  case Nil
  then show ?case by simp
next
  case (Cons ev events)
  from Cons.prems(1) obtain game1 where s: "step game ev = Inr game1"
    and r: "session game1 events = Inr game'"
    by (auto split: sum.splits)
  from step_invariant [OF s Cons.prems(2,3)] Cons.IH [OF r] show ?case by simp
qed

section \<open>A round of the game\<close>











section \<open>The claims\<close>

text \<open>
  The definitions that evaluate a round and a bet on concrete hands and inputs.
\<close>

lemmas round_eval = concludeRound_def outcomeOf_def sumOptimal_def sumLoop.simps reduceAces.simps
  getSize_def getCardAtIndex_def decideWinner_def roundOutcome_def settle_def payout_def
  noFlags_def

lemmas bet_eval = playRoundBet_def emptyHand_def toUnsigned_def newBlackjack_def
  MONEY_AT_START_def list_all_def

lemmas deal_eval = dealerLoop.simps addRandomCards_one randomCard_def
  generateRandomCardValueString_def generateRandomCardSymbolString_def to_string.simps
  digitChar_def

subsection \<open>C1: the optimal total\<close>

text \<open>
  C1. For every hand whose total \<^verbatim>\<open>sumOptimal\<close> can compute (every card has a game
  value and the plain sum of the game values fits the \<^verbatim>\<open>int\<close> that holds it, as for
  every hand the game deals: lemma \<open>random_hand_summable\<close>), \<^verbatim>\<open>sumOptimal\<close> returns
  the greatest total of at most 21 that can be obtained by valuing each ace as 1 or 11
  and every other card at its game value; when no such valuation stays at or below 21,
  it returns the total with every ace valued at 1. For a hand without aces it returns
  the plain sum of the game values.
\<close>

theorem sumOptimal_is_best_total:
  assumes "list_all hasGameValue h" and "nominalSum h \<le> INT_MAX"
  shows "sumOptimal h = Inr (bestTotal h) \<and>
         (\<not> list_ex isAce h \<longrightarrow> sumOptimal h = Inr (nominalSum h))"
proof -
  have sc: "sumCards h 0 0 = Inr (nominalSum h, countAces h)"
    using sumCards_ok [OF assms(1), of 0 0] assms(2) by (simp add: INT_MIN_def)
  then have so: "sumOptimal h = Inr (reduceAces (nominalSum h) (countAces h))"
    by (simp add: sumOptimal_sumCards)
  have "countAces h = 0" if "\<not> list_ex isAce h"
    using that by (simp add: countAces_def list_ex_iff filter_empty_conv)
  with so bestTotal_reduceAces [OF assms(1)] show ?thesis
    by (simp add: reduceAces_no_aces)
qed

text \<open>
  The theorem at the hand A, A, 9 (one ace counts 11, the other 1: 21) and at the hand
  K, Q, 5, which has no ace and is bust with 25.
\<close>

theorem sumOptimal_is_best_total_witness:
  "list_all hasGameValue [card ''A'' ''hearts'', card ''A'' ''spades'', card ''9'' ''clubs''] \<and>
   nominalSum [card ''A'' ''hearts'', card ''A'' ''spades'', card ''9'' ''clubs''] \<le> INT_MAX \<and>
   sumOptimal [card ''A'' ''hearts'', card ''A'' ''spades'', card ''9'' ''clubs''] = Inr 21 \<and>
   list_all hasGameValue [card ''K'' ''hearts'', card ''Q'' ''spades'', card ''5'' ''clubs''] \<and>
   nominalSum [card ''K'' ''hearts'', card ''Q'' ''spades'', card ''5'' ''clubs''] \<le> INT_MAX \<and>
   \<not> list_ex isAce [card ''K'' ''hearts'', card ''Q'' ''spades'', card ''5'' ''clubs''] \<and>
   sumOptimal [card ''K'' ''hearts'', card ''Q'' ''spades'', card ''5'' ''clubs''] = Inr 25"
proof -
  let ?soft = "[card ''A'' ''hearts'', card ''A'' ''spades'', card ''9'' ''clubs'']"
  let ?hard = "[card ''K'' ''hearts'', card ''Q'' ''spades'', card ''5'' ''clubs'']"
  have s1: "list_all hasGameValue ?soft" by (simp add: card_eval)
  have s2: "nominalSum ?soft \<le> INT_MAX" by (simp add: nominalSum_def card_eval)
  have s3: "bestTotal ?soft = 21" by (simp add: bestTotal_def allAcesLow_def card_eval)
  have h1: "list_all hasGameValue ?hard" by (simp add: card_eval)
  have h2: "nominalSum ?hard \<le> INT_MAX" by (simp add: nominalSum_def card_eval)
  have h3: "\<not> list_ex isAce ?hard" by (simp add: isAce_def)
  have h4: "nominalSum ?hard = 25" by (simp add: nominalSum_def card_eval)
  from sumOptimal_is_best_total [OF s1 s2, THEN conjunct1] s3
  have "sumOptimal ?soft = Inr 21" by simp
  moreover from sumOptimal_is_best_total [OF h1 h2, THEN conjunct2] h3 h4
  have "sumOptimal ?hard = Inr 25" by simp
  ultimately show ?thesis using s1 s2 h1 h2 h3 by blast
qed

subsection \<open>C2: the rounds the dealer wins\<close>

text \<open>
  What \<^verbatim>\<open>concludeRound\<close> pays in each case: the flag \<^verbatim>\<open>wonWithBlackjack\<close> is tested
  first and alone, so a blackjack of the dealer is paid to the player like a blackjack
  of the player; a tie pays nothing. The last branch of the chain is never taken.
\<close>

lemma payout_table:
  "settle (decideWinner dealerSum playerSum playerSize dealerSize) game =
     (case roundOutcome dealerSum playerSum playerSize dealerSize of
        PlayerBust \<Rightarrow> game
      | DealerBust \<Rightarrow> payout (thisRoundBet game) 1 game
      | PlayerHigher \<Rightarrow> payout (thisRoundBet game) 1 game
      | DealerHigher \<Rightarrow> game
      | PlayerBlackjack \<Rightarrow> payout (thisRoundBet game) (3 / 2) game
      | DealerBlackjack \<Rightarrow> payout (thisRoundBet game) (3 / 2) game
      | Push \<Rightarrow> game
      | NotDefined \<Rightarrow> game)"
  by (simp add: decideWinner_def roundOutcome_def settle_def noFlags_def)

lemma roundOutcome_defined:
  "roundOutcome dealerSum playerSum playerSize dealerSize \<noteq> NotDefined"
  by (auto simp: roundOutcome_def)

text \<open>
  C2. The claim is that a round the dealer wins by blackjack, by the higher sum or by
  the player's bust adds nothing to the player's money. The code does this for the
  higher sum and the bust (lemma \<open>payout_table\<close>); it does not when the dealer wins by
  blackjack. In a new game the player bets 1 and has 9 left. The dealer is dealt an
  ace, the player 10 and 10, and stands on 20. The dealer draws a king: 21 with two
  cards. The round is the dealer's blackjack, and \<^verbatim>\<open>concludeRound\<close> pays the player 2.5
  times the bet: the money is 11.5, not 9.
\<close>

theorem dealer_blackjack_pays_player:
  "session newBlackjack
     [PlacesBet [''1''], DealerDraws (\<lambda>k. 0) 0, PlayerDraws (\<lambda>k. 9) 2, PlayerDraws (\<lambda>k. 9) 4,
      DealerPlays (\<lambda>k. 12) 6]
     = Inr \<lparr>playerMoney = 9, thisRoundBet = 1,
            playerHand = [card ''10'' ''spades'', card ''10'' ''spades''],
            dealerHand = [card ''A'' ''hearts'', card ''K'' ''hearts'']\<rparr> \<and>
   outcomeOf
     \<lparr>playerMoney = 9, thisRoundBet = 1,
      playerHand = [card ''10'' ''spades'', card ''10'' ''spades''],
      dealerHand = [card ''A'' ''hearts'', card ''K'' ''hearts'']\<rparr>
     = Inr DealerBlackjack \<and>
   concludeRound
     \<lparr>playerMoney = 9, thisRoundBet = 1,
      playerHand = [card ''10'' ''spades'', card ''10'' ''spades''],
      dealerHand = [card ''A'' ''hearts'', card ''K'' ''hearts'']\<rparr>
     = Inr \<lparr>playerMoney = 23 / 2, thisRoundBet = 1,
            playerHand = [card ''10'' ''spades'', card ''10'' ''spades''],
            dealerHand = [card ''A'' ''hearts'', card ''K'' ''hearts'']\<rparr>"
  by (simp add: round_eval bet_eval deal_eval card_eval)

subsection \<open>C3: a tie\<close>

text \<open>
  C3. The claim is that a round that ends in a tie leaves the player with the money
  held before the bet. The code prints "Your bet has been returned" and returns
  nothing. In a new game the player has 10, bets 1 and has 9 left. The dealer is dealt
  10, the player 10 and 10, and stands; the dealer draws 10. The round is a tie, and
  after \<^verbatim>\<open>concludeRound\<close> the money is still 9, not 10.
\<close>

theorem push_keeps_the_bet:
  "playerMoney newBlackjack = 10 \<and>
   session newBlackjack
     [PlacesBet [''1''], DealerDraws (\<lambda>k. 9) 0, PlayerDraws (\<lambda>k. 9) 2, PlayerDraws (\<lambda>k. 9) 4,
      DealerPlays (\<lambda>k. 9) 6]
     = Inr \<lparr>playerMoney = 9, thisRoundBet = 1,
            playerHand = [card ''10'' ''spades'', card ''10'' ''spades''],
            dealerHand = [card ''10'' ''spades'', card ''10'' ''spades'']\<rparr> \<and>
   outcomeOf
     \<lparr>playerMoney = 9, thisRoundBet = 1,
      playerHand = [card ''10'' ''spades'', card ''10'' ''spades''],
      dealerHand = [card ''10'' ''spades'', card ''10'' ''spades'']\<rparr>
     = Inr Push \<and>
   concludeRound
     \<lparr>playerMoney = 9, thisRoundBet = 1,
      playerHand = [card ''10'' ''spades'', card ''10'' ''spades''],
      dealerHand = [card ''10'' ''spades'', card ''10'' ''spades'']\<rparr>
     = Inr \<lparr>playerMoney = 9, thisRoundBet = 1,
            playerHand = [card ''10'' ''spades'', card ''10'' ''spades''],
            dealerHand = [card ''10'' ''spades'', card ''10'' ''spades'']\<rparr>"
  by (simp add: round_eval bet_eval deal_eval card_eval)

subsection \<open>C4: the cards that can be constructed\<close>

text \<open>
  The face values \<^verbatim>\<open>errorCheckCardValue\<close> accepts: the strings between "2" and "9"
  in the order of strings, and "J", "Q", "K", "A". The string "10" is below "2" in
  that order.
\<close>

lemma rank_check_order:
  fixes s :: "'a::linorder"
  assumes "ten < two" and "two \<le> j" and "two \<le> q" and "two \<le> k" and "two \<le> a"
  shows "\<not> (s < two \<or> (nine < s \<and> (s \<noteq> ten \<and> s \<noteq> j \<and> s \<noteq> q \<and> s \<noteq> k \<and> s \<noteq> a)))
           \<longleftrightarrow> (two \<le> s \<and> s \<le> nine) \<or> s = j \<or> s = q \<or> s = k \<or> s = a"
  using assms by auto

lemma if_rejects: "((if c then Inl e else Inr ()) = Inr ()) = (\<not> c)"
  by simp

lemma errorCheckCardValue_accepts:
  "errorCheckCardValue str = Inr () \<longleftrightarrow>
     (''2'' \<le> str \<and> str \<le> ''9'') \<or> str = ''J'' \<or> str = ''Q'' \<or> str = ''K'' \<or> str = ''A''"
proof -
  have order: "''10'' < ''2''" "''2'' \<le> ''J''" "''2'' \<le> ''Q''" "''2'' \<le> ''K''" "''2'' \<le> ''A''"
    by simp_all
  have "errorCheckCardValue str = Inr () \<longleftrightarrow>
      \<not> (str < ''2'' \<or> (''9'' < str \<and>
            (str \<noteq> ''10'' \<and> str \<noteq> ''J'' \<and> str \<noteq> ''Q'' \<and> str \<noteq> ''K'' \<and> str \<noteq> ''A'')))"
    unfolding errorCheckCardValue_def by (rule if_rejects)
  also have "\<dots> \<longleftrightarrow>
     (''2'' \<le> str \<and> str \<le> ''9'') \<or> str = ''J'' \<or> str = ''Q'' \<or> str = ''K'' \<or> str = ''A''"
    by (rule rank_check_order [OF order])
  finally show ?thesis .
qed

lemma errorCheckCardSymbol_accepts:
  "errorCheckCardSymbol str = Inr () \<longleftrightarrow>
     str = ''hearts'' \<or> str = ''diamonds'' \<or> str = ''clubs'' \<or> str = ''spades''"
  by (simp add: errorCheckCardSymbol_def)

text \<open>
  C4. The claim is that the constructor accepts exactly the thirteen face values
  2 to 10, J, Q, K, A with the four symbols, and fails for every other face value and
  for every other symbol. The code does this for the symbols (lemma
  \<open>errorCheckCardSymbol_accepts\<close>). It rejects the face value "10", with the message
  of an invalid face value, and it accepts "2x".
\<close>

theorem newCard_ten_rejected:
  "newCard ''10'' ''hearts'' = Inl InvalidRank \<and>
   newCard ''2x'' ''hearts'' = Inr (card ''2x'' ''hearts'')"
  by (simp add: newCard_def errorCheckCardValue_def errorCheckCardSymbol_def)

subsection \<open>C5: the dealer's turn ends\<close>

text \<open>
  C5. From every dealer's hand whose optimal sum can be computed when the loop is
  entered (every hand the game deals: lemma \<open>random_hand_summable\<close>), and for every
  sequence of results of \<^verbatim>\<open>rand()\<close>, the dealer's loop ends without a failure: it
  returns a hand that extends the hand it started with by at most 17 cards, and the
  optimal sum of the returned hand is at least 17.
\<close>

theorem dealer_loop_terminates:
  assumes "sumOptimal h = Inr s"
  shows "\<exists>h' calls' s'. dealerLoop rnd (h, calls) = Inr (h', calls') \<and>
           sumOptimal h' = Inr s' \<and> 17 \<le> s' \<and>
           take (length h) h' = h \<and> length h' \<le> length h + 17"
proof -
  from dealerLoop_result [OF assms, of rnd calls]
  obtain h' calls' s' where r: "dealerLoop rnd (h, calls) = Inr (h', calls')"
    "sumOptimal h' = Inr s'" "17 \<le> s'" "take (length h) h' = h"
    "int (length h') \<le> int (length h) + max 0 (17 - allAcesLow h)"
    by blast
  have "0 \<le> allAcesLow h"
    using sumOptimal_Inr(1) [OF assms] by (rule allAcesLow_nonneg)
  with r(5) have "length h' \<le> length h + 17" by simp
  with r(1-4) show ?thesis by blast
qed

text \<open>
  The theorem at the hand of one 5 when every call of \<^verbatim>\<open>rand()\<close> returns 4, and the
  hand the loop then returns: the dealer draws three more fives and stands on 20.
\<close>

theorem dealer_loop_terminates_witness:
  "sumOptimal [card ''5'' ''hearts''] = Inr 5 \<and>
   (\<exists>h' calls' s'.
      dealerLoop (\<lambda>k. 4) ([card ''5'' ''hearts''], 0) = Inr (h', calls') \<and>
      sumOptimal h' = Inr s' \<and> 17 \<le> s' \<and>
      take (length [card ''5'' ''hearts'']) h' = [card ''5'' ''hearts''] \<and>
      length h' \<le> length [card ''5'' ''hearts''] + 17)"
proof -
  have s: "sumOptimal [card ''5'' ''hearts''] = Inr 5"
    by (simp add: sumOptimal_def sumLoop.simps reduceAces.simps getSize_def getCardAtIndex_def
        card_eval)
  from dealer_loop_terminates [OF s, of "\<lambda>k. 4" 0] s show ?thesis by blast
qed

lemma dealerLoop_example:
  "dealerLoop (\<lambda>k. 4) ([card ''5'' ''hearts''], 0)
     = Inr ([card ''5'' ''hearts'', card ''5'' ''hearts'', card ''5'' ''hearts'',
             card ''5'' ''hearts''], 6)"
  by (simp add: deal_eval sumOptimal_def sumLoop.simps reduceAces.simps getSize_def
      getCardAtIndex_def card_eval)

subsection \<open>C6: the blackjack of the player\<close>



subsection \<open>C7: the bets that are accepted\<close>

text \<open>
  A word of digits whose value fits an \<^verbatim>\<open>int\<close> is accepted as the bet when it is at
  least 1 and at most the player's money; otherwise, and when the word is not made of
  digits only, the next word is read. A word of digits whose value does not fit an
  \<^verbatim>\<open>int\<close> ends the program with the exception of \<^verbatim>\<open>stoi\<close>.
\<close>

lemma requestBetAmount_accepts:
  assumes "list_all isdigit betStr" and "stoi betStr = Inr n"
    and "1 \<le> n" and "of_int n \<le> money"
  shows "requestBetAmount money (betStr # rest) = Inr (n, rest)"
  using assms stoi_digits_nonneg [OF assms(1,2)]
  by (simp add: toUnsigned_id Let_def)

lemma requestBetAmount_not_numerical:
  "\<not> list_all isdigit betStr \<Longrightarrow>
   requestBetAmount money (betStr # rest) = requestBetAmount money rest"
  by simp

lemma requestBetAmount_out_of_bounds:
  assumes "list_all isdigit betStr" and "stoi betStr = Inr n"
    and "n < 1 \<or> money < of_int n"
  shows "requestBetAmount money (betStr # rest) = requestBetAmount money rest"
  using assms stoi_digits_nonneg [OF assms(1,2)]
  by (auto simp: toUnsigned_id Let_def)

lemma requestBetAmount_stoi_throws:
  "list_all isdigit betStr \<Longrightarrow> stoi betStr = Inl e \<Longrightarrow>
   requestBetAmount money (betStr # rest) = Inl e"
  by simp

text \<open>
  C7. The claim is that a bet is accepted exactly when it is written in digits and is
  at least 1 and at most the player's money, that the accepted bet is taken from the
  money, and that every other bet leaves the money unchanged and is followed by a new
  request. The code does this for the inputs abc, -5, 0 and 11 when the player has
  10: the next input, 5, is accepted and 5 is left. It does not for a bet of digits
  that does not fit an \<^verbatim>\<open>int\<close>: the input 99999999999 ends \<^verbatim>\<open>requestBetAmount\<close> and
  \<^verbatim>\<open>playRound\<close> with the exception \<^verbatim>\<open>std::out_of_range\<close>, and the next input is never
  read.
\<close>

theorem huge_bet_terminates:
  "requestBetAmount 10 [''99999999999'', ''5''] = Inl StoiOutOfRange \<and>
   playRoundBet newBlackjack [''99999999999'', ''5''] = Inl StoiOutOfRange \<and>
   playRoundBet newBlackjack [''abc'', ''-5'', ''0'', ''11'', ''5'']
     = Inr (\<lparr>playerMoney = 5, thisRoundBet = 5, playerHand = [], dealerHand = []\<rparr>, [])"
  by (simp add: bet_eval card_eval)

subsection \<open>C8: removing the last card\<close>

text \<open>
  C8. The claim is that \<^verbatim>\<open>removeLastCard\<close> on an empty hand fails safely. It has no
  check: on the empty hand it calls \<^verbatim>\<open>pop_back\<close> on an empty vector, which is
  undefined.
\<close>

theorem removeLastCard_empty_counterexample:
  "removeLastCard [] = Inl UndefinedBehaviour"
  by (simp add: removeLastCard_def)

text \<open>
  C8, amended. \<^verbatim>\<open>removeLastCard\<close> removes the card that was added last and leaves the
  others as they are: after a card is added it gives the hand back, and on every hand
  that is not empty it returns the hand without its last card.
\<close>

theorem removeLastCard_nonempty:
  "removeLastCard (addCard h c) = Inr h \<and>
   (h' \<noteq> [] \<longrightarrow> removeLastCard h' = Inr (butlast h') \<and> addCard (butlast h') (last h') = h')"
  by (simp add: removeLastCard_def addCard_def)

text \<open>The theorem at the hand K, 5.\<close>

theorem removeLastCard_nonempty_witness:
  "[card ''K'' ''hearts'', card ''5'' ''clubs''] \<noteq> [] \<and>
   removeLastCard [card ''K'' ''hearts'', card ''5'' ''clubs''] = Inr [card ''K'' ''hearts''] \<and>
   removeLastCard (addCard [card ''K'' ''hearts''] (card ''5'' ''clubs''))
     = Inr [card ''K'' ''hearts'']"
  using removeLastCard_nonempty
    [of "[card ''K'' ''hearts'']" "card ''5'' ''clubs''"
        "[card ''K'' ''hearts'', card ''5'' ''clubs'']"]
  by simp

subsection \<open>C9: the player's money is never negative\<close>

text \<open>
  C9. After every sequence of accepted bets, cards dealt, dealer's turns and rounds
  concluded, from a new game on, the player's money is not negative.
\<close>

theorem bankroll_never_negative:
  "session newBlackjack events = Inr game \<Longrightarrow> 0 \<le> playerMoney game"
  using session_invariant [of newBlackjack events game]
  by (simp add: newBlackjack_def MONEY_AT_START_def)

text \<open>
  The theorem at a round of a new game: the bet "abc" is asked again, 3 is
  accepted; the dealer holds 10, the player 10 and K, the dealer draws 7 and stands on
  17; the player wins and has 13.
\<close>

theorem bankroll_never_negative_witness:
  "session newBlackjack
     [PlacesBet [''abc'', ''3''], DealerDraws (\<lambda>k. 9) 0, PlayerDraws (\<lambda>k. 9) 2,
      PlayerDraws (\<lambda>k. 12) 4, DealerPlays (\<lambda>k. 6) 6, Concludes]
     = Inr \<lparr>playerMoney = 13, thisRoundBet = 3,
            playerHand = [card ''10'' ''spades'', card ''K'' ''hearts''],
            dealerHand = [card ''10'' ''spades'', card ''7'' ''diamonds'']\<rparr> \<and>
   (0::rat) \<le> 13"
proof -
  have s: "session newBlackjack
     [PlacesBet [''abc'', ''3''], DealerDraws (\<lambda>k. 9) 0, PlayerDraws (\<lambda>k. 9) 2,
      PlayerDraws (\<lambda>k. 12) 4, DealerPlays (\<lambda>k. 6) 6, Concludes]
     = Inr \<lparr>playerMoney = 13, thisRoundBet = 3,
            playerHand = [card ''10'' ''spades'', card ''K'' ''hearts''],
            dealerHand = [card ''10'' ''spades'', card ''7'' ''diamonds'']\<rparr>"
    by (simp add: round_eval bet_eval deal_eval card_eval)
  from bankroll_never_negative [OF s] s show ?thesis by simp
qed

subsection \<open>C10: a new game\<close>

lemma launchGame_same_game:
  "launchGame game inputs = StartsRound game' rest \<Longrightarrow> game' = game"
  by (induction inputs) (auto split: if_splits)

text \<open>
  C10. A new game has 10 as the player's money, which is \<^verbatim>\<open>MONEY_AT_START\<close>, and 0
  as the bet of the round, and this is the state in which \<^verbatim>\<open>launchGame\<close> starts the
  first round, whatever is typed before the round starts.
\<close>

theorem new_game_starts_with_ten:
  "MONEY_AT_START = 10 \<and> playerMoney newBlackjack = 10 \<and> thisRoundBet newBlackjack = 0 \<and>
   (main inputs = StartsRound game rest \<longrightarrow> playerMoney game = 10 \<and> thisRoundBet game = 0)"
  by (auto simp: main_def newBlackjack_def MONEY_AT_START_def dest: launchGame_same_game)

text \<open>The theorem at the inputs x, s, 3: the first round starts, with 3 still to be read.\<close>

theorem new_game_starts_with_ten_witness:
  "main [''x'', ''s'', ''3''] = StartsRound newBlackjack [''3''] \<and>
   playerMoney newBlackjack = 10 \<and> thisRoundBet newBlackjack = 0"
  using new_game_starts_with_ten [of "[''x'', ''s'', ''3'']" newBlackjack "[''3'']"]
  by (simp add: main_def)

end
